theory Spec2Isabelle
  imports Complex_Main
begin

section \<open>Pet mood detection: a shallow embedding of mood_detection.py\<close>

text \<open>
  The script calls pretrained models and imaging libraries and glues their results
  together. Every call into a library is a parameter of the embedding and may raise:
  \<^item> \<open>yolo_model\<close>, the detector: from an image path to a list of results (one per image);
  \<^item> \<open>pil\<close>, the two PIL calls of line 33, \<open>Image.open\<close> and \<open>crop\<close>;
  \<^item> \<open>clip_logits\<close>, the similarity model with its processor: from the candidate phrases
    and an image to \<open>outputs.logits_per_image\<close>, one row of logits per image;
  \<^item> \<open>cv\<close>, the OpenCV calls of Steps 5 and 6;
  \<^item> \<open>fmt_pct\<close>, the text of \<open>{confidence*100:.1f}\<close> for a given confidence.

  Floats are modelled by real numbers, and the one piece of float arithmetic the embedding
  performs itself, the softmax of line 52, by exact real arithmetic: rounding is not
  modelled. Comparison and conversion to an integer are exact on floats. NaN and the
  infinities denote no real number and are outside the embedding.
  Strings are byte lists: a character outside ASCII is written as its UTF-8 bytes.
\<close>

subsection \<open>Errors and values\<close>

datatype py_error =
    IndexError | KeyError | ValueError | TypeError
  | FileNotFoundError | OSError | Cv2Error | LibraryError

text \<open>\<open>int(x)\<close> on a float: truncation toward zero.\<close>

definition py_int :: "real \<Rightarrow> int" where
  "py_int x = (if 0 \<le> x then \<lfloor>x\<rfloor> else \<lceil>x\<rceil>)"

type_synonym xyxy = "real \<times> real \<times> real \<times> real"
type_synonym box_coords = "int \<times> int \<times> int \<times> int"

text \<open>
  The part of a detector result the script reads (\<open>r.boxes.xyxy\<close>, \<open>r.boxes.cls\<close>,
  \<open>r.names\<close>), and the confidences \<open>r.boxes.conf\<close> it never reads.
\<close>

record yolo_result =
  boxes_xyxy :: "xyxy list"
  boxes_cls :: "real list"
  boxes_conf :: "real list"
  names :: "int \<rightharpoonup> string"

text \<open>
  The PIL calls, over any type \<open>'img\<close> of images. Either may raise: \<open>Image.open\<close> on a
  missing or unreadable file, \<open>crop\<close> on a truncated file or a box it refuses.
\<close>

record 'img pil =
  Image_open :: "string \<Rightarrow> py_error + 'img"
  crop :: "'img \<Rightarrow> box_coords \<Rightarrow> py_error + 'img"

text \<open>
  The OpenCV calls, over any type \<open>'mat\<close> of pixel arrays (\<open>imread\<close> gives \<open>None\<close> for a
  file it cannot read, which is a value of \<open>'mat\<close> the later calls raise on). A drawing call
  changes its array in place; here it returns the changed array. \<open>getTextSize\<close> and
  \<open>putText\<close> stand for the calls with the font, scale and thickness of lines 88 to 90, and
  \<open>putText\<close> with the colour of line 97.
\<close>

record 'mat cv2 =
  imread :: "string \<Rightarrow> py_error + 'mat"
  rectangle :: "'mat \<Rightarrow> int \<times> int \<Rightarrow> int \<times> int \<Rightarrow> int \<times> int \<times> int \<Rightarrow> int \<Rightarrow> py_error + 'mat"
  getTextSize :: "string \<Rightarrow> py_error + ((int \<times> int) \<times> int)"
  putText :: "'mat \<Rightarrow> string \<Rightarrow> int \<times> int \<Rightarrow> py_error + 'mat"
  imshow :: "string \<Rightarrow> 'mat \<Rightarrow> py_error option"
  waitKey :: "int \<Rightarrow> py_error + int"
  destroyAllWindows :: "py_error option"

subsection \<open>Step 4: the recommendation table\<close>

definition rules :: "((string \<times> string) \<times> string) list" where
  "rules =
    [((''dog'', ''happy''), ''Take your dog for a walk or play fetch '' @ [CHR 0xF0, CHR 0x9F, CHR 0x8E, CHR 0xBE]),
     ((''dog'', ''tired''), ''Let your dog rest and provide fresh water '' @ [CHR 0xF0, CHR 0x9F, CHR 0x92, CHR 0xA7]),
     ((''dog'', ''playful''), ''Engage with toys to burn energy '' @ [CHR 0xF0, CHR 0x9F, CHR 0x90, CHR 0x95]),
     ((''dog'', ''anxious''), ''Check if something is stressing your dog '' @ [CHR 0xF0, CHR 0x9F, CHR 0x98, CHR 0x9F]),
     ((''cat'', ''happy''), ''Give your cat some toys or treats '' @ [CHR 0xF0, CHR 0x9F, CHR 0x90, CHR 0xB1, CHR 0xE2, CHR 0x9C, CHR 0xA8]),
     ((''cat'', ''tired''), ''Let your cat nap in a quiet spot '' @ [CHR 0xF0, CHR 0x9F, CHR 0x92, CHR 0xA4]),
     ((''cat'', ''playful''), ''Play with a laser pointer or string toy '' @ [CHR 0xF0, CHR 0x9F, CHR 0x8E, CHR 0xAF]),
     ((''cat'', ''anxious''), ''Make sure the environment is calm '' @ [CHR 0xF0, CHR 0x9F, CHR 0x90, CHR 0xB1, CHR 0xF0, CHR 0x9F, CHR 0x98, CHR 0x9F])]"

text \<open>\<open>rules.get((pet_type, mood), "Keep monitoring your pet.")\<close>\<close>

definition get_recommendation :: "string \<Rightarrow> string \<Rightarrow> string" where
  "get_recommendation pet_type mood =
     (case map_of rules (pet_type, mood) of
        Some r \<Rightarrow> r
      | None \<Rightarrow> ''Keep monitoring your pet.'')"

subsection \<open>Step 2: detection and crop\<close>

text \<open>
  The triple \<open>detect_and_crop\<close> returns: each component is a value or \<open>None\<close>, as in
  Python, where nothing ties the three together.
\<close>

type_synonym 'img detection_triple = "string option \<times> 'img option \<times> box_coords option"

text \<open>\<open>Image.open(image_path).crop((x1, y1, x2, y2))\<close>\<close>

definition open_and_crop :: "'img pil \<Rightarrow> string \<Rightarrow> box_coords \<Rightarrow> py_error + 'img" where
  "open_and_crop lib image_path box =
     (case Image_open lib image_path of
        Inl e \<Rightarrow> Inl e
      | Inr im \<Rightarrow> crop lib im box)"

text \<open>
  The loop of lines 29 to 35 over \<open>zip(r.boxes.xyxy, r.boxes.cls)\<close>. \<open>r.names[int(cls)]\<close>
  raises \<open>KeyError\<close> on a class index the table lacks; an error of the crop leaves the
  function at once.
\<close>

fun detect_and_crop_loop ::
  "'img pil \<Rightarrow> (int \<rightharpoonup> string) \<Rightarrow> string \<Rightarrow> (xyxy \<times> real) list
   \<Rightarrow> py_error + 'img detection_triple" where
  "detect_and_crop_loop lib nm image_path [] = Inr (None, None, None)"
| "detect_and_crop_loop lib nm image_path (((a, b, c, d), cls) # rest) =
     (case nm (py_int cls) of
        None \<Rightarrow> Inl KeyError
      | Some label \<Rightarrow>
          if label \<in> set [''dog'', ''cat''] then
            (let x1 = py_int a; y1 = py_int b; x2 = py_int c; y2 = py_int d
             in case open_and_crop lib image_path (x1, y1, x2, y2) of
                  Inl e \<Rightarrow> Inl e
                | Inr cropped \<Rightarrow> Inr (Some label, Some cropped, Some (x1, y1, x2, y2)))
          else detect_and_crop_loop lib nm image_path rest)"

text \<open>\<open>results[0]\<close> raises \<open>IndexError\<close> on an empty list of results.\<close>

definition detect_and_crop ::
  "(string \<Rightarrow> py_error + yolo_result list) \<Rightarrow> 'img pil \<Rightarrow> string
   \<Rightarrow> py_error + 'img detection_triple" where
  "detect_and_crop yolo_model lib image_path =
     (case yolo_model image_path of
        Inl e \<Rightarrow> Inl e
      | Inr results \<Rightarrow>
          (case results of
             [] \<Rightarrow> Inl IndexError
           | r # _ \<Rightarrow>
               detect_and_crop_loop lib (names r) image_path (zip (boxes_xyxy r) (boxes_cls r))))"

subsection \<open>Step 3: mood classification\<close>

definition moods :: "string list" where
  "moods = [''happy'', ''tired'', ''playful'', ''anxious'']"

text \<open>\<open>[f"a {m} pet" for m in moods]\<close>\<close>

definition mood_phrases :: "string list" where
  "mood_phrases = map (\<lambda>m. ''a '' @ m @ '' pet'') moods"

text \<open>
  \<open>softmax\<close> along a row: each entry's exponential over the sum of the row's exponentials.
\<close>

definition softmax :: "real list \<Rightarrow> real list" where
  "softmax xs = map (\<lambda>x. exp x / sum_list (map exp xs)) xs"

text \<open>
  numpy's \<open>argmax\<close> on a one-dimensional array: one pass that keeps the running maximum
  \<open>mp\<close> and its index \<open>best\<close>, and replaces them only by a strictly greater entry; it
  raises \<open>ValueError\<close> on an empty array.
\<close>

fun argmax_loop :: "real list \<Rightarrow> nat \<Rightarrow> nat \<Rightarrow> real \<Rightarrow> nat" where
  "argmax_loop [] i best mp = best"
| "argmax_loop (x # xs) i best mp =
     (if mp < x then argmax_loop xs (Suc i) i x else argmax_loop xs (Suc i) best mp)"

definition argmax :: "real list \<Rightarrow> py_error + nat" where
  "argmax probs = (case probs of [] \<Rightarrow> Inl ValueError | x # xs \<Rightarrow> Inr (argmax_loop xs 1 0 x))"

text \<open>
  Lines 52 to 55: the softmax of every row of \<open>logits_per_image\<close> (\<open>dim=1\<close>), its row
  \<open>[0]\<close> (\<open>IndexError\<close> when there is none), the index of the first maximum, and
  \<open>moods[best_idx]\<close>, which raises \<open>IndexError\<close> when the row is longer than \<open>moods\<close>
  and its maximum lies beyond.
\<close>

definition classify_mood ::
  "(string list \<Rightarrow> 'img \<Rightarrow> py_error + real list list) \<Rightarrow> 'img \<Rightarrow> py_error + (string \<times> real)" where
  "classify_mood clip_logits img =
     (case clip_logits mood_phrases img of
        Inl e \<Rightarrow> Inl e
      | Inr logits_per_image \<Rightarrow>
          (case map softmax logits_per_image of
             [] \<Rightarrow> Inl IndexError
           | probs # _ \<Rightarrow>
               (case argmax probs of
                  Inl e \<Rightarrow> Inl e
                | Inr best_idx \<Rightarrow>
                    if best_idx < length moods then Inr (moods ! best_idx, probs ! best_idx)
                    else Inl IndexError)))"

subsection \<open>Step 5: the annotated image\<close>

definition draw_detection_with_mood ::
  "'mat cv2 \<Rightarrow> (real \<Rightarrow> string) \<Rightarrow> string \<Rightarrow> box_coords \<Rightarrow> string \<Rightarrow> string \<Rightarrow> real
   \<Rightarrow> py_error + 'mat" where
  "draw_detection_with_mood cv fmt_pct image_path box_coords pet_type mood confidence =
     (case imread cv image_path of
        Inl e \<Rightarrow> Inl e
      | Inr img \<Rightarrow>
          (case box_coords of (x1, y1, x2, y2) \<Rightarrow>
             (case rectangle cv img (x1, y1) (x2, y2) (0, 255, 0) 2 of
                Inl e \<Rightarrow> Inl e
              | Inr img1 \<Rightarrow>
                  (let label = pet_type @ '' - '' @ mood @ '' ('' @ fmt_pct confidence @ ''%)''
                   in case getTextSize cv label of
                        Inl e \<Rightarrow> Inl e
                      | Inr ((text_width, text_height), baseline) \<Rightarrow>
                          (case rectangle cv img1 (x1, y1 - text_height - 10)
                                  (x1 + text_width + 10, y1) (0, 255, 0) (- 1) of
                             Inl e \<Rightarrow> Inl e
                           | Inr img2 \<Rightarrow> putText cv img2 label (x1 + 5, y1 - 5))))))"

subsection \<open>Step 6: the demo run\<close>

text \<open>
  What the run does after detection, in order: the lines it prints and the calls it makes
  to the mood classifier, to \<open>draw_detection_with_mood\<close> and to the window functions. A
  call is recorded when it is made, whether or not it then raises. A run is its list of
  events and the error that ended it, if one did.
\<close>

datatype 'img event =
    Print string
  | ClassifyMoodCall 'img
  | DrawDetectionCall string box_coords string string real
  | ImShow string
  | WaitKey int
  | DestroyAllWindows

text \<open>The truth value of \<open>pet_type\<close> in \<open>if pet_type:\<close>, a string or \<open>None\<close>.\<close>

definition truthy :: "string option \<Rightarrow> bool" where
  "truthy v = (case v of None \<Rightarrow> False | Some s \<Rightarrow> s \<noteq> [])"

definition image_path :: string where
  "image_path = ''./ML-AI/dog_sample.jpg''"

text \<open>Lines 119 to 121, after the annotated image has been drawn.\<close>

definition show_annotated :: "'mat cv2 \<Rightarrow> 'mat \<Rightarrow> 'img event list \<times> py_error option" where
  "show_annotated cv annotated_img =
     (case imshow cv ''Pet Mood Detection'' annotated_img of
        Some e \<Rightarrow> ([ImShow ''Pet Mood Detection''], Some e)
      | None \<Rightarrow>
          (case waitKey cv 0 of
             Inl e \<Rightarrow> ([ImShow ''Pet Mood Detection'', WaitKey 0], Some e)
           | Inr key \<Rightarrow>
               ([ImShow ''Pet Mood Detection'', WaitKey 0, DestroyAllWindows],
                destroyAllWindows cv)))"

text \<open>
  In the branch taken when \<open>pet_type\<close> is true, a \<open>None\<close> crop or box would make the
  library calls fail; the embedding ends such a run with \<open>TypeError\<close>.
\<close>

definition run_demo ::
  "(string \<Rightarrow> py_error + yolo_result list) \<Rightarrow> 'img pil
   \<Rightarrow> (string list \<Rightarrow> 'img \<Rightarrow> py_error + real list list)
   \<Rightarrow> (real \<Rightarrow> string) \<Rightarrow> 'mat cv2 \<Rightarrow> string \<Rightarrow> 'img event list \<times> py_error option" where
  "run_demo yolo_model lib clip_logits fmt_pct cv path =
     (case detect_and_crop yolo_model lib path of
        Inl e \<Rightarrow> ([], Some e)
      | Inr (pet_type, cropped, box_coords) \<Rightarrow>
          if truthy pet_type then
            (case (pet_type, cropped, box_coords) of
               (Some pt, Some cr, Some box) \<Rightarrow>
                 (case classify_mood clip_logits cr of
                    Inl e \<Rightarrow> ([ClassifyMoodCall cr], Some e)
                  | Inr (mood, confidence) \<Rightarrow>
                      (let rec = get_recommendation pt mood;
                           so_far = [ClassifyMoodCall cr,
                                     Print (''Pet detected: '' @ pt),
                                     Print (''Mood: '' @ mood @ '' ('' @ fmt_pct confidence @ ''% confidence)''),
                                     Print (''Recommendation: '' @ rec),
                                     DrawDetectionCall path box pt mood confidence]
                       in case draw_detection_with_mood cv fmt_pct path box pt mood confidence of
                            Inl e \<Rightarrow> (so_far, Some e)
                          | Inr annotated_img \<Rightarrow>
                              (case show_annotated cv annotated_img of
                                 (shown, err) \<Rightarrow> (so_far @ shown, err))))
             | _ \<Rightarrow> ([], Some TypeError))
          else ([Print ''No pet detected in the image.''], None))"

definition main_script ::
  "(string \<Rightarrow> py_error + yolo_result list) \<Rightarrow> 'img pil
   \<Rightarrow> (string list \<Rightarrow> 'img \<Rightarrow> py_error + real list list)
   \<Rightarrow> (real \<Rightarrow> string) \<Rightarrow> 'mat cv2 \<Rightarrow> 'img event list \<times> py_error option" where
  "main_script yolo_model lib clip_logits fmt_pct cv =
     run_demo yolo_model lib clip_logits fmt_pct cv image_path"

subsection \<open>Example inputs\<close>

text \<open>Class indices as in the detector's pretrained label table.\<close>

definition coco_names :: "int \<rightharpoonup> string" where
  "coco_names = map_of [(0, ''person''), (2, ''car''), (15, ''cat''), (16, ''dog'')]"

definition three_detections :: yolo_result where
  "three_detections =
     \<lparr>boxes_xyxy = [(5, 5, 50, 50), (21/2, 81/4, 403/4, 200), (0, 0, 30, 30)],
      boxes_cls = [2, 15, 16],
      boxes_conf = [3/4, 3/8, 15/16],
      names = coco_names\<rparr>"

definition car_only :: yolo_result where
  "car_only =
     \<lparr>boxes_xyxy = [(5, 5, 50, 50)], boxes_cls = [2], boxes_conf = [3/4], names = coco_names\<rparr>"

definition no_boxes :: yolo_result where
  "no_boxes = \<lparr>boxes_xyxy = [], boxes_cls = [], boxes_conf = [], names = coco_names\<rparr>"

definition fractional_dog :: yolo_result where
  "fractional_dog =
     \<lparr>boxes_xyxy = [(21/2, 81/4, 403/4, 200)], boxes_cls = [16], boxes_conf = [7/8],
      names = coco_names\<rparr>"

definition fractional_detector :: "string \<Rightarrow> py_error + yolo_result list" where
  "fractional_detector p = Inr [fractional_dog]"

text \<open>The single-precision float nearest to 0.9 is \<open>7549747 / 8388608\<close>.\<close>

definition scenario_dog :: yolo_result where
  "scenario_dog =
     \<lparr>boxes_xyxy = [(10, 10, 100, 100)], boxes_cls = [16], boxes_conf = [7549747/8388608],
      names = coco_names\<rparr>"

definition scenario_detector :: "string \<Rightarrow> py_error + yolo_result list" where
  "scenario_detector p = Inr [scenario_dog]"

text \<open>Images and pixel arrays as the expressions that made them, with calls that succeed.\<close>

datatype image = ImageOpen string | Crop image box_coords

definition symbolic_pil :: "image pil" where
  "symbolic_pil = \<lparr>Image_open = (\<lambda>p. Inr (ImageOpen p)), crop = (\<lambda>im box. Inr (Crop im box))\<rparr>"

text \<open>A PIL whose \<open>Image.open\<close> finds no file.\<close>

definition missing_file_pil :: "image pil" where
  "missing_file_pil =
     \<lparr>Image_open = (\<lambda>p. Inl FileNotFoundError), crop = (\<lambda>im box. Inr (Crop im box))\<rparr>"

datatype mat =
    Imread string
  | Rectangle mat "int \<times> int" "int \<times> int" "int \<times> int \<times> int" int
  | PutText mat string "int \<times> int"

definition symbolic_cv :: "mat cv2" where
  "symbolic_cv =
     \<lparr>imread = (\<lambda>p. Inr (Imread p)),
      rectangle = (\<lambda>m p1 p2 colour thickness. Inr (Rectangle m p1 p2 colour thickness)),
      getTextSize = (\<lambda>label. Inr ((11 * int (length label), 14), 5)),
      putText = (\<lambda>m label org. Inr (PutText m label org)),
      imshow = (\<lambda>name m. None),
      waitKey = (\<lambda>delay. Inr 13),
      destroyAllWindows = None\<rparr>"

text \<open>
  Classifiers given by their logits: the softmax of \<open>[0, ln 6, ln 2, 0]\<close> is
  \<open>[0.1, 0.6, 0.2, 0.1]\<close>, that of \<open>[0, ln 3, ln 3, 0]\<close> is \<open>[1/8, 3/8, 3/8, 1/8]\<close>.
\<close>

definition scenario_classifier :: "string list \<Rightarrow> image \<Rightarrow> py_error + real list list" where
  "scenario_classifier phrases img = Inr [[0, ln 6, ln 2, 0]]"

definition tie_classifier :: "string list \<Rightarrow> image \<Rightarrow> py_error + real list list" where
  "tie_classifier phrases img = Inr [[0, ln 3, ln 3, 0]]"

definition scenario_fmt :: "real \<Rightarrow> string" where
  "scenario_fmt confidence = ''60.0''"

subsection \<open>Facts about the detection loop\<close>

lemma loop_none:
  "(\<forall>d \<in> set ds. \<exists>l. nm (py_int (snd d)) = Some l \<and> l \<notin> set [''dog'', ''cat''])
   \<Longrightarrow> detect_and_crop_loop lib nm p ds = Inr (None, None, None)"
  by (induction lib nm p ds rule: detect_and_crop_loop.induct) auto

lemma loop_first:
  assumes "\<forall>d \<in> set pre. \<exists>l. nm (py_int (snd d)) = Some l \<and> l \<notin> set [''dog'', ''cat'']"
    and "nm (py_int cls) = Some label" and "label \<in> set [''dog'', ''cat'']"
  shows "detect_and_crop_loop lib nm p (pre @ ((a, b, c, d), cls) # post) =
     (case open_and_crop lib p (py_int a, py_int b, py_int c, py_int d) of
        Inl e \<Rightarrow> Inl e
      | Inr cropped \<Rightarrow>
          Inr (Some label, Some cropped, Some (py_int a, py_int b, py_int c, py_int d)))"
  using assms by (induction lib nm p pre rule: detect_and_crop_loop.induct) (auto simp: Let_def)

lemma loop_shape:
  "detect_and_crop_loop lib nm p ds = Inr t \<Longrightarrow>
     t = (None, None, None)
     \<or> (\<exists>l box cropped. l \<in> set [''dog'', ''cat''] \<and> open_and_crop lib p box = Inr cropped
           \<and> t = (Some l, Some cropped, Some box))"
  by (induction lib nm p ds rule: detect_and_crop_loop.induct)
     (auto split: option.splits if_splits sum.splits simp: Let_def)

lemma take_all_others:
  assumes "i < length ds"
    and "\<forall>j<i. \<exists>l. nm (py_int (snd (ds ! j))) = Some l \<and> l \<notin> set [''dog'', ''cat'']"
  shows "\<forall>e \<in> set (take i ds). \<exists>l. nm (py_int (snd e)) = Some l \<and> l \<notin> set [''dog'', ''cat'']"
proof
  fix e assume "e \<in> set (take i ds)"
  then obtain j where "j < length (take i ds)" and e: "e = take i ds ! j"
    by (metis in_set_conv_nth)
  then have "j < i" and "e = ds ! j" by simp_all
  with assms(2) show "\<exists>l. nm (py_int (snd e)) = Some l \<and> l \<notin> set [''dog'', ''cat'']"
    by blast
qed

lemma loop_at_first_match:
  assumes "i < length ds"
    and "ds ! i = ((a, b, c, d), cls)"
    and "nm (py_int cls) = Some label"
    and "label \<in> set [''dog'', ''cat'']"
    and "\<forall>j<i. \<exists>l. nm (py_int (snd (ds ! j))) = Some l \<and> l \<notin> set [''dog'', ''cat'']"
  shows "detect_and_crop_loop lib nm p ds =
     (case open_and_crop lib p (py_int a, py_int b, py_int c, py_int d) of
        Inl e \<Rightarrow> Inl e
      | Inr cropped \<Rightarrow>
          Inr (Some label, Some cropped, Some (py_int a, py_int b, py_int c, py_int d)))"
proof -
  have split: "ds = take i ds @ ((a, b, c, d), cls) # drop (Suc i) ds"
    using assms(1,2) by (metis id_take_nth_drop)
  have pre: "\<forall>e \<in> set (take i ds). \<exists>l. nm (py_int (snd e)) = Some l \<and> l \<notin> set [''dog'', ''cat'']"
    using assms(1,5) by (rule take_all_others)
  have "detect_and_crop_loop lib nm p (take i ds @ ((a, b, c, d), cls) # drop (Suc i) ds) =
     (case open_and_crop lib p (py_int a, py_int b, py_int c, py_int d) of
        Inl e \<Rightarrow> Inl e
      | Inr cropped \<Rightarrow>
          Inr (Some label, Some cropped, Some (py_int a, py_int b, py_int c, py_int d)))"
    using pre assms(3,4) by (rule loop_first)
  with split show ?thesis by simp
qed

lemma detect_and_crop_unfold:
  "yolo_model path = Inr (r # rs) \<Longrightarrow>
     detect_and_crop yolo_model lib path =
       detect_and_crop_loop lib (names r) path (zip (boxes_xyxy r) (boxes_cls r))"
  by (simp add: detect_and_crop_def)

lemma detect_and_crop_shape:
  assumes "detect_and_crop yolo_model lib path = Inr t"
  shows "t = (None, None, None)
     \<or> (\<exists>l box cropped. l \<in> set [''dog'', ''cat''] \<and> open_and_crop lib path box = Inr cropped
           \<and> t = (Some l, Some cropped, Some box))"
proof (cases "yolo_model path")
  case (Inl e)
  with assms show ?thesis by (simp add: detect_and_crop_def)
next
  case (Inr results)
  show ?thesis
  proof (cases results)
    case Nil
    with Inr assms show ?thesis by (simp add: detect_and_crop_def)
  next
    case (Cons r rs)
    with Inr assms
    have "detect_and_crop_loop lib (names r) path (zip (boxes_xyxy r) (boxes_cls r)) = Inr t"
      by (simp add: detect_and_crop_def)
    then show ?thesis by (rule loop_shape)
  qed
qed

lemma py_int_of_int: "py_int (of_int n) = n"
  by (simp add: py_int_def)

lemma py_int_exact_iff: "real_of_int (py_int x) = x \<longleftrightarrow> x \<in> \<int>"
proof
  assume "real_of_int (py_int x) = x"
  then show "x \<in> \<int>" by (metis Ints_of_int)
next
  assume "x \<in> \<int>"
  then obtain n where "x = of_int n" by (auto elim: Ints_cases)
  then show "real_of_int (py_int x) = x" by (simp add: py_int_of_int)
qed

lemma symbolic_open_and_crop: "open_and_crop symbolic_pil p box = Inr (Crop (ImageOpen p) box)"
  by (simp add: open_and_crop_def symbolic_pil_def)

subsection \<open>Facts about the first maximum\<close>

lemma argmax_loop_spec:
  assumes "length pre = i" and "best < i" and "pre ! best = mp"
    and "\<forall>j<i. pre ! j \<le> mp" and "\<forall>j<best. pre ! j < mp"
  shows "argmax_loop xs i best mp < length (pre @ xs)
     \<and> (\<forall>j<length (pre @ xs). (pre @ xs) ! j \<le> (pre @ xs) ! argmax_loop xs i best mp)
     \<and> (\<forall>j<argmax_loop xs i best mp. (pre @ xs) ! j < (pre @ xs) ! argmax_loop xs i best mp)"
  using assms
proof (induction xs arbitrary: pre i best mp)
  case Nil
  then show ?case by auto
next
  case (Cons x xs)
  let ?pre = "pre @ [x]"
  have len: "length ?pre = Suc i" using Cons.prems by simp
  show ?case
  proof (cases "mp < x")
    case True
    have "argmax_loop xs (Suc i) i x < length (?pre @ xs)
     \<and> (\<forall>j<length (?pre @ xs). (?pre @ xs) ! j \<le> (?pre @ xs) ! argmax_loop xs (Suc i) i x)
     \<and> (\<forall>j<argmax_loop xs (Suc i) i x. (?pre @ xs) ! j < (?pre @ xs) ! argmax_loop xs (Suc i) i x)"
    proof (rule Cons.IH [OF len])
      show "i < Suc i" by simp
      show "?pre ! i = x" using Cons.prems(1) by (auto simp: nth_append)
      have below: "pre ! j \<le> mp" if "j < i" for j
        using Cons.prems(4) that by blast
      show "\<forall>j<Suc i. ?pre ! j \<le> x"
      proof (intro allI impI)
        fix j assume "j < Suc i"
        then consider "j < i" | "j = i" by linarith
        then show "?pre ! j \<le> x"
        proof cases
          case 1
          with below [of j] True Cons.prems(1) show ?thesis by (simp add: nth_append)
        next
          case 2
          with Cons.prems(1) show ?thesis by (simp add: nth_append)
        qed
      qed
      show "\<forall>j<i. ?pre ! j < x"
      proof (intro allI impI)
        fix j assume "j < i"
        with below [of j] True Cons.prems(1) show "?pre ! j < x" by (simp add: nth_append)
      qed
    qed
    with True show ?thesis by simp
  next
    case False
    have "argmax_loop xs (Suc i) best mp < length (?pre @ xs)
     \<and> (\<forall>j<length (?pre @ xs). (?pre @ xs) ! j \<le> (?pre @ xs) ! argmax_loop xs (Suc i) best mp)
     \<and> (\<forall>j<argmax_loop xs (Suc i) best mp. (?pre @ xs) ! j < (?pre @ xs) ! argmax_loop xs (Suc i) best mp)"
    proof (rule Cons.IH [OF len])
      show "best < Suc i" using Cons.prems by simp
      show "?pre ! best = mp" using Cons.prems by (simp add: nth_append)
      have below: "pre ! j \<le> mp" if "j < i" for j
        using Cons.prems(4) that by blast
      show "\<forall>j<Suc i. ?pre ! j \<le> mp"
      proof (intro allI impI)
        fix j assume "j < Suc i"
        then consider "j < i" | "j = i" by linarith
        then show "?pre ! j \<le> mp"
        proof cases
          case 1
          with below [of j] Cons.prems(1) show ?thesis by (simp add: nth_append)
        next
          case 2
          with False Cons.prems(1) show ?thesis by (simp add: nth_append)
        qed
      qed
      show "\<forall>j<best. ?pre ! j < mp"
      proof (intro allI impI)
        fix j assume "j < best"
        moreover from this Cons.prems(5) have "pre ! j < mp" by blast
        ultimately show "?pre ! j < mp" using Cons.prems(1,2) by (simp add: nth_append)
      qed
    qed
    with False show ?thesis by simp
  qed
qed

lemma argmax_first_max:
  assumes "probs \<noteq> []"
  shows "\<exists>k. argmax probs = Inr k \<and> k < length probs
     \<and> (\<forall>j<length probs. probs ! j \<le> probs ! k) \<and> (\<forall>j<k. probs ! j < probs ! k)"
proof -
  from assms obtain x xs where probs: "probs = x # xs" by (cases probs) auto
  have "argmax_loop xs 1 0 x < length ([x] @ xs)
     \<and> (\<forall>j<length ([x] @ xs). ([x] @ xs) ! j \<le> ([x] @ xs) ! argmax_loop xs 1 0 x)
     \<and> (\<forall>j<argmax_loop xs 1 0 x. ([x] @ xs) ! j < ([x] @ xs) ! argmax_loop xs 1 0 x)"
    by (rule argmax_loop_spec) auto
  then show ?thesis by (simp add: probs argmax_def)
qed

lemma first_max_unique:
  fixes probs :: "real list"
  assumes "k < length probs" and "i < length probs"
    and "\<forall>j<length probs. probs ! j \<le> probs ! k" and "\<forall>j<k. probs ! j < probs ! k"
    and "\<forall>j<length probs. probs ! j \<le> probs ! i" and "\<forall>j<i. probs ! j < probs ! i"
  shows "k = i"
proof (rule ccontr)
  assume "k \<noteq> i"
  then consider "k < i" | "i < k" by linarith
  then show False
  proof cases
    case 1
    with assms have "probs ! k < probs ! i" "probs ! i \<le> probs ! k" by auto
    then show False by simp
  next
    case 2
    with assms have "probs ! i < probs ! k" "probs ! k \<le> probs ! i" by auto
    then show False by simp
  qed
qed

subsection \<open>Facts about the recommendation table\<close>

lemma rules_keys:
  "set (map fst rules) = set [''dog'', ''cat''] \<times> set [''happy'', ''tired'', ''playful'', ''anxious'']"
  by (auto simp: rules_def)

lemma rules_values_nonempty: "r \<in> set (map snd rules) \<Longrightarrow> r \<noteq> []"
  by (auto simp: rules_def)

text \<open>
  C8. \<open>get_recommendation\<close> is a total function of its two string arguments. On each of the
  8 pairs of \<open>{dog, cat} \<times> {happy, tired, playful, anxious}\<close> it returns the entry of the
  table for that pair, which is a non-empty string; on every other pair it returns the
  fallback "Keep monitoring your pet.".
\<close>

theorem get_recommendation_table:
  "get_recommendation ''dog'' ''happy'' = ''Take your dog for a walk or play fetch '' @ [CHR 0xF0, CHR 0x9F, CHR 0x8E, CHR 0xBE]
   \<and> get_recommendation ''dog'' ''tired'' = ''Let your dog rest and provide fresh water '' @ [CHR 0xF0, CHR 0x9F, CHR 0x92, CHR 0xA7]
   \<and> get_recommendation ''dog'' ''playful'' = ''Engage with toys to burn energy '' @ [CHR 0xF0, CHR 0x9F, CHR 0x90, CHR 0x95]
   \<and> get_recommendation ''dog'' ''anxious'' = ''Check if something is stressing your dog '' @ [CHR 0xF0, CHR 0x9F, CHR 0x98, CHR 0x9F]
   \<and> get_recommendation ''cat'' ''happy'' = ''Give your cat some toys or treats '' @ [CHR 0xF0, CHR 0x9F, CHR 0x90, CHR 0xB1, CHR 0xE2, CHR 0x9C, CHR 0xA8]
   \<and> get_recommendation ''cat'' ''tired'' = ''Let your cat nap in a quiet spot '' @ [CHR 0xF0, CHR 0x9F, CHR 0x92, CHR 0xA4]
   \<and> get_recommendation ''cat'' ''playful'' = ''Play with a laser pointer or string toy '' @ [CHR 0xF0, CHR 0x9F, CHR 0x8E, CHR 0xAF]
   \<and> get_recommendation ''cat'' ''anxious'' = ''Make sure the environment is calm '' @ [CHR 0xF0, CHR 0x9F, CHR 0x90, CHR 0xB1, CHR 0xF0, CHR 0x9F, CHR 0x98, CHR 0x9F]
   \<and> (\<forall>pet_type mood.
         (pet_type, mood) \<in> set [''dog'', ''cat''] \<times> set [''happy'', ''tired'', ''playful'', ''anxious'']
         \<longrightarrow> map_of rules (pet_type, mood) = Some (get_recommendation pet_type mood)
             \<and> get_recommendation pet_type mood \<noteq> [])
   \<and> (\<forall>pet_type mood.
         (pet_type, mood) \<notin> set [''dog'', ''cat''] \<times> set [''happy'', ''tired'', ''playful'', ''anxious'']
         \<longrightarrow> get_recommendation pet_type mood = ''Keep monitoring your pet.'')"
proof -
  have table: "get_recommendation ''dog'' ''happy'' = ''Take your dog for a walk or play fetch '' @ [CHR 0xF0, CHR 0x9F, CHR 0x8E, CHR 0xBE]"
    "get_recommendation ''dog'' ''tired'' = ''Let your dog rest and provide fresh water '' @ [CHR 0xF0, CHR 0x9F, CHR 0x92, CHR 0xA7]"
    "get_recommendation ''dog'' ''playful'' = ''Engage with toys to burn energy '' @ [CHR 0xF0, CHR 0x9F, CHR 0x90, CHR 0x95]"
    "get_recommendation ''dog'' ''anxious'' = ''Check if something is stressing your dog '' @ [CHR 0xF0, CHR 0x9F, CHR 0x98, CHR 0x9F]"
    "get_recommendation ''cat'' ''happy'' = ''Give your cat some toys or treats '' @ [CHR 0xF0, CHR 0x9F, CHR 0x90, CHR 0xB1, CHR 0xE2, CHR 0x9C, CHR 0xA8]"
    "get_recommendation ''cat'' ''tired'' = ''Let your cat nap in a quiet spot '' @ [CHR 0xF0, CHR 0x9F, CHR 0x92, CHR 0xA4]"
    "get_recommendation ''cat'' ''playful'' = ''Play with a laser pointer or string toy '' @ [CHR 0xF0, CHR 0x9F, CHR 0x8E, CHR 0xAF]"
    "get_recommendation ''cat'' ''anxious'' = ''Make sure the environment is calm '' @ [CHR 0xF0, CHR 0x9F, CHR 0x90, CHR 0xB1, CHR 0xF0, CHR 0x9F, CHR 0x98, CHR 0x9F]"
    by (simp_all add: get_recommendation_def rules_def)
  have inside: "map_of rules (p, m) = Some (get_recommendation p m) \<and> get_recommendation p m \<noteq> []"
    if "(p, m) \<in> set [''dog'', ''cat''] \<times> set [''happy'', ''tired'', ''playful'', ''anxious'']"
    for p m
  proof -
    have "(p, m) \<in> set (map fst rules)"
      by (subst rules_keys) (rule that)
    then have "(p, m) \<in> dom (map_of rules)"
      by (simp add: dom_map_of_conv_image_fst)
    then obtain r where r: "map_of rules (p, m) = Some r"
      by blast
    then have "r \<in> set (map snd rules)"
      by (metis map_of_SomeD set_zip_rightD zip_map_fst_snd)
    then have "r \<noteq> []"
      by (rule rules_values_nonempty)
    with r show ?thesis
      by (simp add: get_recommendation_def)
  qed
  have outside: "get_recommendation p m = ''Keep monitoring your pet.''"
    if "(p, m) \<notin> set [''dog'', ''cat''] \<times> set [''happy'', ''tired'', ''playful'', ''anxious'']"
    for p m
  proof -
    have "(p, m) \<notin> set (map fst rules)"
      by (subst rules_keys) (rule that)
    then have "map_of rules (p, m) = None"
      by (simp add: map_of_eq_None_iff)
    then show ?thesis
      by (simp add: get_recommendation_def)
  qed
  from table inside outside show ?thesis
    by blast
qed

theorem get_recommendation_table_witness:
  "get_recommendation ''cat'' ''tired'' = ''Let your cat nap in a quiet spot '' @ [CHR 0xF0, CHR 0x9F, CHR 0x92, CHR 0xA4]
   \<and> get_recommendation ''cat'' ''tired'' \<noteq> []
   \<and> get_recommendation ''bird'' ''happy'' = ''Keep monitoring your pet.''
   \<and> get_recommendation ''dog'' ''sleepy'' = ''Keep monitoring your pet.''"
proof -
  have a: "(''cat'', ''tired'') \<in> set [''dog'', ''cat''] \<times> set [''happy'', ''tired'', ''playful'', ''anxious'']"
    by simp
  have b: "(''bird'', ''happy'') \<notin> set [''dog'', ''cat''] \<times> set [''happy'', ''tired'', ''playful'', ''anxious'']"
    by simp
  have c: "(''dog'', ''sleepy'') \<notin> set [''dog'', ''cat''] \<times> set [''happy'', ''tired'', ''playful'', ''anxious'']"
    by simp
  from get_recommendation_table a b c show ?thesis
    by blast
qed

subsection \<open>Selection of the detection\<close>

text \<open>
  C1. Whatever list of detections the detector produces, \<open>detect_and_crop\<close> returns the
  first detection, in the detector's order, whose label is "dog" or "cat": when the crop at
  that detection's box succeeds, the result is its label, that crop and its box (converted
  by \<open>int\<close>); when the crop raises, so does \<open>detect_and_crop\<close>, and no later detection is
  tried. So whatever it returns is the first match. The confidences play no part: the
  result is the same whatever they are, so it is not the match of highest confidence.
\<close>

theorem detect_and_crop_first_match:
  assumes "yolo_model path = Inr (r # rs)"
    and "ds = zip (boxes_xyxy r) (boxes_cls r)"
    and "i < length ds"
    and "ds ! i = ((a, b, c, d), cls)"
    and "names r (py_int cls) = Some label"
    and "label \<in> set [''dog'', ''cat'']"
    and "\<forall>j<i. \<exists>l. names r (py_int (snd (ds ! j))) = Some l \<and> l \<notin> set [''dog'', ''cat'']"
  shows "(\<forall>cropped. open_and_crop lib path (py_int a, py_int b, py_int c, py_int d) = Inr cropped
            \<longrightarrow> detect_and_crop yolo_model lib path =
                  Inr (Some label, Some cropped, Some (py_int a, py_int b, py_int c, py_int d)))
         \<and> (\<forall>e. open_and_crop lib path (py_int a, py_int b, py_int c, py_int d) = Inl e
            \<longrightarrow> detect_and_crop yolo_model lib path = Inl e)
         \<and> (\<forall>l cr bx. detect_and_crop yolo_model lib path = Inr (l, cr, bx)
            \<longrightarrow> l = Some label \<and> bx = Some (py_int a, py_int b, py_int c, py_int d)
                \<and> (\<exists>cropped. cr = Some cropped
                      \<and> open_and_crop lib path (py_int a, py_int b, py_int c, py_int d) = Inr cropped))
         \<and> (\<forall>confs. detect_and_crop (yolo_model (path := Inr (r\<lparr>boxes_conf := confs\<rparr> # rs))) lib path =
                detect_and_crop yolo_model lib path)"
proof -
  have "detect_and_crop_loop lib (names r) path ds =
     (case open_and_crop lib path (py_int a, py_int b, py_int c, py_int d) of
        Inl e \<Rightarrow> Inl e
      | Inr cropped \<Rightarrow>
          Inr (Some label, Some cropped, Some (py_int a, py_int b, py_int c, py_int d)))"
    using assms(3-7) by (rule loop_at_first_match)
  with assms(1,2) have whole: "detect_and_crop yolo_model lib path =
     (case open_and_crop lib path (py_int a, py_int b, py_int c, py_int d) of
        Inl e \<Rightarrow> Inl e
      | Inr cropped \<Rightarrow>
          Inr (Some label, Some cropped, Some (py_int a, py_int b, py_int c, py_int d)))"
    by (simp add: detect_and_crop_unfold)
  have confs: "detect_and_crop (yolo_model (path := Inr (r\<lparr>boxes_conf := confs\<rparr> # rs))) lib path =
          detect_and_crop yolo_model lib path" for confs
    using assms(1) by (simp add: detect_and_crop_def)
  show ?thesis
  proof (intro conjI allI impI)
    fix cropped
    assume "open_and_crop lib path (py_int a, py_int b, py_int c, py_int d) = Inr cropped"
    with whole show "detect_and_crop yolo_model lib path =
        Inr (Some label, Some cropped, Some (py_int a, py_int b, py_int c, py_int d))"
      by simp
  next
    fix e
    assume "open_and_crop lib path (py_int a, py_int b, py_int c, py_int d) = Inl e"
    with whole show "detect_and_crop yolo_model lib path = Inl e"
      by simp
  next
    fix l cr bx
    assume ret: "detect_and_crop yolo_model lib path = Inr (l, cr, bx)"
    with whole show "l = Some label"
      by (auto split: sum.splits)
    from ret whole show "bx = Some (py_int a, py_int b, py_int c, py_int d)"
      by (auto split: sum.splits)
    from ret whole show "\<exists>cropped. cr = Some cropped
        \<and> open_and_crop lib path (py_int a, py_int b, py_int c, py_int d) = Inr cropped"
      by (auto split: sum.splits)
  next
    fix confs
    show "detect_and_crop (yolo_model (path := Inr (r\<lparr>boxes_conf := confs\<rparr> # rs))) lib path =
          detect_and_crop yolo_model lib path"
      by (rule confs)
  qed
qed

theorem detect_and_crop_first_match_witness:
  "detect_and_crop (\<lambda>p. Inr [three_detections]) symbolic_pil ''pets.jpg'' =
     Inr (Some ''cat'', Some (Crop (ImageOpen ''pets.jpg'') (10, 20, 100, 200)), Some (10, 20, 100, 200))
   \<and> detect_and_crop (\<lambda>p. Inr [three_detections]) missing_file_pil ''pets.jpg'' = Inl FileNotFoundError
   \<and> boxes_conf three_detections ! 1 < boxes_conf three_detections ! 2
   \<and> names three_detections (py_int (boxes_cls three_detections ! 2)) = Some ''dog''"
proof -
  have ds: "zip (boxes_xyxy three_detections) (boxes_cls three_detections) =
      [((5, 5, 50, 50), 2), ((21/2, 81/4, 403/4, 200), 15), ((0, 0, 30, 30), 16)]"
    by (simp add: three_detections_def)
  have h3: "1 < length (zip (boxes_xyxy three_detections) (boxes_cls three_detections))"
    by (simp add: ds)
  have h4: "zip (boxes_xyxy three_detections) (boxes_cls three_detections) ! 1 = ((21/2, 81/4, 403/4, 200), 15)"
    by (simp add: ds)
  have h5: "names three_detections (py_int 15) = Some ''cat''"
    by (simp add: three_detections_def coco_names_def py_int_def)
  have h6: "''cat'' \<in> set [''dog'', ''cat'']"
    by simp
  have h7: "\<forall>j<1. \<exists>l. names three_detections
        (py_int (snd (zip (boxes_xyxy three_detections) (boxes_cls three_detections) ! j))) = Some l
        \<and> l \<notin> set [''dog'', ''cat'']"
    by (simp add: ds three_detections_def coco_names_def py_int_def)
  have vals: "py_int (21/2) = 10" "py_int (81/4) = 20" "py_int (403/4) = 100" "py_int 200 = 200"
    by (simp_all add: py_int_def)
  have ok: "open_and_crop symbolic_pil ''pets.jpg'' (py_int (21/2), py_int (81/4), py_int (403/4), py_int 200)
      = Inr (Crop (ImageOpen ''pets.jpg'') (10, 20, 100, 200))"
    by (simp add: vals symbolic_open_and_crop)
  have bad: "open_and_crop missing_file_pil ''pets.jpg'' (py_int (21/2), py_int (81/4), py_int (403/4), py_int 200)
      = Inl FileNotFoundError"
    by (simp add: open_and_crop_def missing_file_pil_def)
  have one: "detect_and_crop (\<lambda>p. Inr [three_detections]) symbolic_pil ''pets.jpg'' =
     Inr (Some ''cat'', Some (Crop (ImageOpen ''pets.jpg'') (10, 20, 100, 200)),
          Some (py_int (21/2), py_int (81/4), py_int (403/4), py_int 200))"
    using detect_and_crop_first_match [of "\<lambda>p. Inr [three_detections]" "''pets.jpg''" three_detections "[]"
        "zip (boxes_xyxy three_detections) (boxes_cls three_detections)" 1 "21/2" "81/4" "403/4" 200 15 "''cat''"
        symbolic_pil, OF refl refl h3 h4 h5 h6 h7] ok
    by blast
  have two: "detect_and_crop (\<lambda>p. Inr [three_detections]) missing_file_pil ''pets.jpg'' = Inl FileNotFoundError"
    using detect_and_crop_first_match [of "\<lambda>p. Inr [three_detections]" "''pets.jpg''" three_detections "[]"
        "zip (boxes_xyxy three_detections) (boxes_cls three_detections)" 1 "21/2" "81/4" "403/4" 200 15 "''cat''"
        missing_file_pil, OF refl refl h3 h4 h5 h6 h7] bad
    by blast
  from one two show ?thesis
    by (simp add: vals three_detections_def coco_names_def py_int_def)
qed

subsection \<open>The detection step without a pet, and the shape of its result\<close>

text \<open>
  C3. When the detector returns zero boxes, or every box it returns has a label outside
  "dog" and "cat", \<open>detect_and_crop\<close> returns the triple \<open>(None, None, None)\<close> and raises
  no error.
\<close>

theorem detect_and_crop_not_found:
  assumes "yolo_model path = Inr (r # rs)"
    and "boxes_xyxy r = []
         \<or> (\<forall>d \<in> set (zip (boxes_xyxy r) (boxes_cls r)).
               \<exists>l. names r (py_int (snd d)) = Some l \<and> l \<notin> set [''dog'', ''cat''])"
  shows "detect_and_crop yolo_model lib path = Inr (None, None, None)"
proof -
  from assms(2)
  have "\<forall>d \<in> set (zip (boxes_xyxy r) (boxes_cls r)).
          \<exists>l. names r (py_int (snd d)) = Some l \<and> l \<notin> set [''dog'', ''cat'']"
    by auto
  then have "detect_and_crop_loop lib (names r) path (zip (boxes_xyxy r) (boxes_cls r)) = Inr (None, None, None)"
    by (rule loop_none)
  with assms(1) show ?thesis
    by (simp add: detect_and_crop_unfold)
qed

theorem detect_and_crop_not_found_witness:
  "detect_and_crop (\<lambda>p. Inr [no_boxes]) symbolic_pil ''empty.jpg'' = Inr (None, None, None)
   \<and> detect_and_crop (\<lambda>p. Inr [car_only]) symbolic_pil ''street.jpg'' = Inr (None, None, None)
   \<and> detect_and_crop (\<lambda>p. Inr [car_only]) missing_file_pil ''street.jpg'' = Inr (None, None, None)"
proof -
  have a: "boxes_xyxy no_boxes = []
         \<or> (\<forall>d \<in> set (zip (boxes_xyxy no_boxes) (boxes_cls no_boxes)).
               \<exists>l. names no_boxes (py_int (snd d)) = Some l \<and> l \<notin> set [''dog'', ''cat''])"
    by (simp add: no_boxes_def)
  have b: "boxes_xyxy car_only = []
         \<or> (\<forall>d \<in> set (zip (boxes_xyxy car_only) (boxes_cls car_only)).
               \<exists>l. names car_only (py_int (snd d)) = Some l \<and> l \<notin> set [''dog'', ''cat''])"
    by (simp add: car_only_def coco_names_def py_int_def)
  show ?thesis
    using detect_and_crop_not_found [of "\<lambda>p. Inr [no_boxes]" "''empty.jpg''" no_boxes "[]" symbolic_pil, OF refl a]
      detect_and_crop_not_found [of "\<lambda>p. Inr [car_only]" "''street.jpg''" car_only "[]" symbolic_pil, OF refl b]
      detect_and_crop_not_found [of "\<lambda>p. Inr [car_only]" "''street.jpg''" car_only "[]" missing_file_pil, OF refl b]
    by simp
qed

text \<open>
  C10. \<open>detect_and_crop\<close> never returns a triple that is \<open>None\<close> in part: either all
  three components are \<open>None\<close>, or the label is "dog" or "cat" and the crop and the box are
  both present (the crop being the one taken at that box). So the truth value of the label,
  which is all the main script tests, tells the two cases apart.
\<close>

theorem detect_and_crop_all_or_nothing:
  assumes "detect_and_crop yolo_model lib path = Inr (label, cropped, box)"
  shows "((label = None \<and> cropped = None \<and> box = None)
          \<or> ((label = Some ''dog'' \<or> label = Some ''cat'')
              \<and> (\<exists>b cr. open_and_crop lib path b = Inr cr \<and> cropped = Some cr \<and> box = Some b)))
         \<and> (truthy label \<longleftrightarrow> label \<noteq> None)
         \<and> (truthy label \<longleftrightarrow> cropped \<noteq> None \<and> box \<noteq> None)"
  using detect_and_crop_shape [OF assms] by (auto simp: truthy_def)

theorem detect_and_crop_all_or_nothing_witness:
  "detect_and_crop (\<lambda>p. Inr [car_only]) symbolic_pil ''street.jpg'' = Inr (None, None, None)
   \<and> \<not> truthy None
   \<and> detect_and_crop (\<lambda>p. Inr [three_detections]) symbolic_pil ''pets.jpg'' =
       Inr (Some ''cat'', Some (Crop (ImageOpen ''pets.jpg'') (10, 20, 100, 200)), Some (10, 20, 100, 200))
   \<and> truthy (Some ''cat'')"
proof -
  have a: "detect_and_crop (\<lambda>p. Inr [car_only]) symbolic_pil ''street.jpg'' = Inr (None, None, None)"
    by (simp add: detect_and_crop_def car_only_def coco_names_def py_int_def)
  have b: "detect_and_crop (\<lambda>p. Inr [three_detections]) symbolic_pil ''pets.jpg'' =
       Inr (Some ''cat'', Some (Crop (ImageOpen ''pets.jpg'') (10, 20, 100, 200)), Some (10, 20, 100, 200))"
    by (simp add: detect_and_crop_def three_detections_def coco_names_def py_int_def
        symbolic_open_and_crop)
  show ?thesis
    using detect_and_crop_all_or_nothing [OF a] detect_and_crop_all_or_nothing [OF b] a b
    by simp
qed

subsection \<open>The run without a pet\<close>

text \<open>
  C2. For an image on which the detector returns zero boxes, or only boxes labelled
  outside "dog" and "cat", the run prints the one line "No pet detected in the image." and
  ends normally; it makes no call to the mood classifier and no rendering call.
\<close>

theorem run_demo_no_pet:
  assumes "yolo_model path = Inr (r # rs)"
    and "boxes_xyxy r = []
         \<or> (\<forall>d \<in> set (zip (boxes_xyxy r) (boxes_cls r)).
               \<exists>l. names r (py_int (snd d)) = Some l \<and> l \<notin> set [''dog'', ''cat''])"
  shows "run_demo yolo_model lib clip_logits fmt_pct cv path = ([Print ''No pet detected in the image.''], None)
         \<and> (\<forall>img. ClassifyMoodCall img \<notin> set (fst (run_demo yolo_model lib clip_logits fmt_pct cv path)))
         \<and> (\<forall>p b t m x. DrawDetectionCall p b t m x
                \<notin> set (fst (run_demo yolo_model lib clip_logits fmt_pct cv path)))
         \<and> (\<forall>w. ImShow w \<notin> set (fst (run_demo yolo_model lib clip_logits fmt_pct cv path)))"
proof -
  from assms(2)
  have "\<forall>d \<in> set (zip (boxes_xyxy r) (boxes_cls r)).
          \<exists>l. names r (py_int (snd d)) = Some l \<and> l \<notin> set [''dog'', ''cat'']"
    by auto
  then have "detect_and_crop_loop lib (names r) path (zip (boxes_xyxy r) (boxes_cls r)) = Inr (None, None, None)"
    by (rule loop_none)
  with assms(1) have "detect_and_crop yolo_model lib path = Inr (None, None, None)"
    by (simp add: detect_and_crop_unfold)
  then have "run_demo yolo_model lib clip_logits fmt_pct cv path = ([Print ''No pet detected in the image.''], None)"
    by (simp add: run_demo_def truthy_def)
  then show ?thesis by simp
qed

theorem run_demo_no_pet_witness:
  "run_demo (\<lambda>p. Inr [no_boxes]) symbolic_pil scenario_classifier scenario_fmt symbolic_cv image_path =
     ([Print ''No pet detected in the image.''], None)
   \<and> run_demo (\<lambda>p. Inr [car_only]) symbolic_pil scenario_classifier scenario_fmt symbolic_cv image_path =
     ([Print ''No pet detected in the image.''], None)"
proof -
  have a: "boxes_xyxy no_boxes = []
         \<or> (\<forall>d \<in> set (zip (boxes_xyxy no_boxes) (boxes_cls no_boxes)).
               \<exists>l. names no_boxes (py_int (snd d)) = Some l \<and> l \<notin> set [''dog'', ''cat''])"
    by (simp add: no_boxes_def)
  have b: "boxes_xyxy car_only = []
         \<or> (\<forall>d \<in> set (zip (boxes_xyxy car_only) (boxes_cls car_only)).
               \<exists>l. names car_only (py_int (snd d)) = Some l \<and> l \<notin> set [''dog'', ''cat''])"
    by (simp add: car_only_def coco_names_def py_int_def)
  show ?thesis
    using run_demo_no_pet [of "\<lambda>p. Inr [no_boxes]" image_path no_boxes "[]" symbolic_pil
        scenario_classifier scenario_fmt symbolic_cv, OF refl a]
      run_demo_no_pet [of "\<lambda>p. Inr [car_only]" image_path car_only "[]" symbolic_pil
        scenario_classifier scenario_fmt symbolic_cv, OF refl b]
    by blast
qed

subsection \<open>A single pet\<close>

text \<open>
  C4, as amended. For an image with exactly one dog or cat detection, whenever
  \<open>detect_and_crop\<close> returns, which it does when the crop at that detection's box
  succeeds, the label it returns is the detector's label for that detection, and the box it
  returns is the detector's coordinates for that detection, each converted by \<open>int\<close>, that
  is truncated toward zero. The box equals the reported coordinates exactly when all four
  are whole numbers.
\<close>

theorem detect_and_crop_single_pet:
  assumes "yolo_model path = Inr (r # rs)"
    and "ds = zip (boxes_xyxy r) (boxes_cls r)"
    and "i < length ds"
    and "ds ! i = ((a, b, c, d), cls)"
    and "names r (py_int cls) = Some label"
    and "label \<in> set [''dog'', ''cat'']"
    and "\<forall>j<length ds. j \<noteq> i \<longrightarrow>
           (\<exists>l. names r (py_int (snd (ds ! j))) = Some l \<and> l \<notin> set [''dog'', ''cat''])"
  shows "(\<forall>cropped. open_and_crop lib path (py_int a, py_int b, py_int c, py_int d) = Inr cropped
            \<longrightarrow> detect_and_crop yolo_model lib path =
                  Inr (Some label, Some cropped, Some (py_int a, py_int b, py_int c, py_int d)))
         \<and> (\<forall>l cr bx. detect_and_crop yolo_model lib path = Inr (l, cr, bx)
            \<longrightarrow> l = Some label \<and> bx = Some (py_int a, py_int b, py_int c, py_int d))
         \<and> ((real_of_int (py_int a), real_of_int (py_int b), real_of_int (py_int c), real_of_int (py_int d))
              = (a, b, c, d)
            \<longleftrightarrow> a \<in> \<int> \<and> b \<in> \<int> \<and> c \<in> \<int> \<and> d \<in> \<int>)"
proof -
  have earlier: "\<forall>j<i. \<exists>l. names r (py_int (snd (ds ! j))) = Some l \<and> l \<notin> set [''dog'', ''cat'']"
  proof (intro allI impI)
    fix j assume "j < i"
    with assms(3) have "j < length ds" and "j \<noteq> i" by simp_all
    with assms(7) show "\<exists>l. names r (py_int (snd (ds ! j))) = Some l \<and> l \<notin> set [''dog'', ''cat'']"
      by blast
  qed
  have "detect_and_crop_loop lib (names r) path ds =
     (case open_and_crop lib path (py_int a, py_int b, py_int c, py_int d) of
        Inl e \<Rightarrow> Inl e
      | Inr cropped \<Rightarrow>
          Inr (Some label, Some cropped, Some (py_int a, py_int b, py_int c, py_int d)))"
    using assms(3-6) earlier by (rule loop_at_first_match)
  with assms(1,2) have whole: "detect_and_crop yolo_model lib path =
     (case open_and_crop lib path (py_int a, py_int b, py_int c, py_int d) of
        Inl e \<Rightarrow> Inl e
      | Inr cropped \<Rightarrow>
          Inr (Some label, Some cropped, Some (py_int a, py_int b, py_int c, py_int d)))"
    by (simp add: detect_and_crop_unfold)
  have ok: "detect_and_crop yolo_model lib path =
        Inr (Some label, Some cropped, Some (py_int a, py_int b, py_int c, py_int d))"
    if "open_and_crop lib path (py_int a, py_int b, py_int c, py_int d) = Inr cropped" for cropped
    using whole that by simp
  have ret: "l = Some label \<and> bx = Some (py_int a, py_int b, py_int c, py_int d)"
    if "detect_and_crop yolo_model lib path = Inr (l, cr, bx)" for l cr bx
    using whole that by (auto split: sum.splits)
  have exact: "(real_of_int (py_int a), real_of_int (py_int b), real_of_int (py_int c), real_of_int (py_int d))
              = (a, b, c, d)
            \<longleftrightarrow> a \<in> \<int> \<and> b \<in> \<int> \<and> c \<in> \<int> \<and> d \<in> \<int>"
    by (simp add: py_int_exact_iff)
  from ok ret exact show ?thesis
    by blast
qed

theorem detect_and_crop_single_pet_witness:
  "detect_and_crop fractional_detector symbolic_pil ''dog.jpg'' =
     Inr (Some ''dog'', Some (Crop (ImageOpen ''dog.jpg'') (10, 20, 100, 200)), Some (10, 20, 100, 200))
   \<and> (200::real) \<in> \<int> \<and> (21/2::real) \<notin> \<int>"
proof -
  have ds: "zip (boxes_xyxy fractional_dog) (boxes_cls fractional_dog) = [((21/2, 81/4, 403/4, 200), 16)]"
    by (simp add: fractional_dog_def)
  have h1: "fractional_detector ''dog.jpg'' = Inr (fractional_dog # [])"
    by (simp add: fractional_detector_def)
  have h3: "0 < length (zip (boxes_xyxy fractional_dog) (boxes_cls fractional_dog))"
    by (simp add: ds)
  have h4: "zip (boxes_xyxy fractional_dog) (boxes_cls fractional_dog) ! 0 = ((21/2, 81/4, 403/4, 200), 16)"
    by (simp add: ds)
  have h5: "names fractional_dog (py_int 16) = Some ''dog''"
    by (simp add: fractional_dog_def coco_names_def py_int_def)
  have h6: "''dog'' \<in> set [''dog'', ''cat'']"
    by simp
  have h7: "\<forall>j<length (zip (boxes_xyxy fractional_dog) (boxes_cls fractional_dog)). j \<noteq> 0 \<longrightarrow>
       (\<exists>l. names fractional_dog
          (py_int (snd (zip (boxes_xyxy fractional_dog) (boxes_cls fractional_dog) ! j))) = Some l
        \<and> l \<notin> set [''dog'', ''cat''])"
    by (simp add: ds)
  have vals: "py_int (21/2) = 10" "py_int (81/4) = 20" "py_int (403/4) = 100" "py_int 200 = 200"
    by (simp_all add: py_int_def)
  have ok: "open_and_crop symbolic_pil ''dog.jpg'' (py_int (21/2), py_int (81/4), py_int (403/4), py_int 200)
      = Inr (Crop (ImageOpen ''dog.jpg'') (10, 20, 100, 200))"
    by (simp add: vals symbolic_open_and_crop)
  note res = detect_and_crop_single_pet [of fractional_detector "''dog.jpg''" fractional_dog "[]"
        "zip (boxes_xyxy fractional_dog) (boxes_cls fractional_dog)" 0 "21/2" "81/4" "403/4" 200 16 "''dog''"
        symbolic_pil, OF h1 refl h3 h4 h5 h6 h7]
  from res ok have one: "detect_and_crop fractional_detector symbolic_pil ''dog.jpg'' =
     Inr (Some ''dog'', Some (Crop (ImageOpen ''dog.jpg'') (10, 20, 100, 200)),
          Some (py_int (21/2), py_int (81/4), py_int (403/4), py_int 200))"
    by blast
  from res have "(real_of_int (py_int (21/2)), real_of_int (py_int (81/4)), real_of_int (py_int (403/4)),
               real_of_int (py_int 200)) = (21/2, 81/4, 403/4, 200)
            \<longleftrightarrow> (21/2::real) \<in> \<int> \<and> (81/4::real) \<in> \<int> \<and> (403/4::real) \<in> \<int> \<and> (200::real) \<in> \<int>"
    by blast
  then have "(21/2::real) \<notin> \<int>"
    by (simp add: vals)
  with one show ?thesis
    by (simp add: vals)
qed

text \<open>
  C4, as first stated, fails: on a dog reported at \<open>(10.5, 20.25, 100.75, 200)\<close>, with a
  crop that succeeds, the returned box is \<open>(10, 20, 100, 200)\<close>, which is not the reported
  box.
\<close>

theorem detect_and_crop_box_counterexample:
  "detect_and_crop fractional_detector symbolic_pil ''dog.jpg'' =
     Inr (Some ''dog'', Some (Crop (ImageOpen ''dog.jpg'') (10, 20, 100, 200)), Some (10, 20, 100, 200))
   \<and> fractional_detector ''dog.jpg'' = Inr [fractional_dog]
   \<and> zip (boxes_xyxy fractional_dog) (boxes_cls fractional_dog) = [((21/2, 81/4, 403/4, 200), 16)]
   \<and> names fractional_dog (py_int 16) = Some ''dog''
   \<and> (real_of_int 10, real_of_int 20, real_of_int 100, real_of_int 200) \<noteq> (21/2, 81/4, 403/4, 200)"
  by (simp add: detect_and_crop_def fractional_detector_def fractional_dog_def coco_names_def py_int_def
      symbolic_open_and_crop)

subsection \<open>Facts about the softmax\<close>

lemma sum_exp_pos: "xs \<noteq> [] \<Longrightarrow> 0 < sum_list (map exp (xs :: real list))"
proof (induction xs)
  case Nil
  then show ?case by simp
next
  case (Cons x xs)
  have "0 \<le> sum_list (map exp xs)"
    by (rule sum_list_nonneg) auto
  moreover have "0 < exp x" by simp
  ultimately have "0 < exp x + sum_list (map exp xs)" by linarith
  then show ?case by simp
qed

lemma exp_le_sum_exp: "x \<in> set xs \<Longrightarrow> exp x \<le> sum_list (map exp (xs :: real list))"
proof (induction xs)
  case Nil
  then show ?case by simp
next
  case (Cons y ys)
  have rest: "0 \<le> sum_list (map exp ys)"
    by (rule sum_list_nonneg) auto
  show ?case
  proof (cases "x = y")
    case True
    with rest have "exp x \<le> exp y + sum_list (map exp ys)" by simp
    then show ?thesis by simp
  next
    case False
    with Cons have "exp x \<le> sum_list (map exp ys)" by simp
    moreover have "0 < exp y" by simp
    ultimately have "exp x \<le> exp y + sum_list (map exp ys)" by linarith
    then show ?thesis by simp
  qed
qed

lemma sum_list_divide: "sum_list (map (\<lambda>x. f x / c) xs) = sum_list (map f xs) / (c :: real)"
  by (induction xs) (simp_all add: add_divide_distrib)

lemma softmax_length: "length (softmax xs) = length xs"
  by (simp add: softmax_def)

lemma softmax_sum: "xs \<noteq> [] \<Longrightarrow> sum_list (softmax xs) = 1"
proof -
  assume "xs \<noteq> []"
  then have "0 < sum_list (map exp xs)" by (rule sum_exp_pos)
  then show ?thesis
    by (simp add: softmax_def sum_list_divide)
qed

lemma softmax_bounds:
  assumes "p \<in> set (softmax xs)"
  shows "0 < p \<and> p \<le> 1"
proof -
  from assms obtain x where x: "x \<in> set xs" and p: "p = exp x / sum_list (map exp xs)"
    by (auto simp: softmax_def)
  from x have "xs \<noteq> []" by auto
  then have pos: "0 < sum_list (map exp xs)" by (rule sum_exp_pos)
  from x have "exp x \<le> sum_list (map exp xs)" by (rule exp_le_sum_exp)
  with pos p show ?thesis by simp
qed

subsection \<open>Facts about the mood classification\<close>

lemma mood_phrases_eq:
  "mood_phrases = [''a happy pet'', ''a tired pet'', ''a playful pet'', ''a anxious pet'']"
  by (simp add: mood_phrases_def moods_def)

lemma classify_mood_first_max:
  assumes "clip_logits mood_phrases img = Inr (logits # rest)" and "length logits = 4"
  shows "\<exists>k<4. classify_mood clip_logits img = Inr (moods ! k, softmax logits ! k)
           \<and> (\<forall>j<4. softmax logits ! j \<le> softmax logits ! k)
           \<and> (\<forall>j<k. softmax logits ! j < softmax logits ! k)"
proof -
  let ?probs = "softmax logits"
  have len: "length ?probs = 4" using assms(2) by (simp add: softmax_length)
  then have "?probs \<noteq> []" by auto
  then obtain k where k: "argmax ?probs = Inr k" "k < length ?probs"
      "\<forall>j<length ?probs. ?probs ! j \<le> ?probs ! k" "\<forall>j<k. ?probs ! j < ?probs ! k"
    using argmax_first_max by blast
  from k(1,2) len assms(1) have "classify_mood clip_logits img = Inr (moods ! k, ?probs ! k)"
    by (simp add: classify_mood_def moods_def)
  with k(2,3,4) len show ?thesis by auto
qed

lemma classify_mood_member:
  assumes "classify_mood clip_logits img = Inr (mood, confidence)"
  shows "mood \<in> set moods"
  using assms
  by (auto simp: classify_mood_def split: sum.splits list.splits if_splits)

lemma argmax_in_range: "argmax probs = Inr k \<Longrightarrow> k < length probs"
proof -
  assume a: "argmax probs = Inr k"
  then have "probs \<noteq> []" by (auto simp: argmax_def)
  then obtain k' where "argmax probs = Inr k'" "k' < length probs"
    using argmax_first_max by blast
  with a show ?thesis by simp
qed

lemma classify_mood_confidence:
  assumes "classify_mood clip_logits img = Inr (mood, confidence)"
  shows "\<exists>logits rest. clip_logits mood_phrases img = Inr (logits # rest)
           \<and> confidence \<in> set (softmax logits)"
proof -
  from assms obtain rows where rows: "clip_logits mood_phrases img = Inr rows"
    by (auto simp: classify_mood_def split: sum.splits)
  with assms obtain logits rest where lr: "rows = logits # rest"
    by (cases rows) (auto simp: classify_mood_def)
  from assms rows lr obtain k where k: "argmax (softmax logits) = Inr k"
      and c: "confidence = softmax logits ! k"
    by (auto simp: classify_mood_def split: sum.splits if_splits)
  from k have "k < length (softmax logits)" by (rule argmax_in_range)
  with c have "confidence \<in> set (softmax logits)" by simp
  with rows lr show ?thesis by blast
qed

lemma softmax_scenario: "softmax [0, ln 6, ln 2, 0] = [1/10, 6/10, 2/10, 1/10]"
  by (simp add: softmax_def)

lemma softmax_tie: "softmax [0, ln 3, ln 3, 0] = [1/8, 3/8, 3/8, 1/8]"
  by (simp add: softmax_def)

text \<open>
  C5. For every crop, \<open>classify_mood\<close> hands the classifier exactly the four phrases
  "a happy pet", "a tired pet", "a playful pet", "a anxious pet", and its result depends on
  the classifier through that one call only. When the classifier answers with logits for
  the four phrases, \<open>classify_mood\<close> returns a mood whose probability, in the softmax of
  those logits, is the greatest of the four, together with that probability. Whenever it
  returns, the mood is one of happy, tired, playful, anxious.
\<close>

theorem classify_mood_argmax:
  "mood_phrases = [''a happy pet'', ''a tired pet'', ''a playful pet'', ''a anxious pet'']
   \<and> (\<forall>other. other [''a happy pet'', ''a tired pet'', ''a playful pet'', ''a anxious pet''] img
                 = clip_logits [''a happy pet'', ''a tired pet'', ''a playful pet'', ''a anxious pet''] img
          \<longrightarrow> classify_mood other img = classify_mood clip_logits img)
   \<and> (\<forall>logits rest. clip_logits mood_phrases img = Inr (logits # rest) \<and> length logits = 4
          \<longrightarrow> (\<exists>k<4. classify_mood clip_logits img = Inr (moods ! k, softmax logits ! k)
                       \<and> (\<forall>j<4. softmax logits ! j \<le> softmax logits ! k)))
   \<and> (\<forall>mood confidence. classify_mood clip_logits img = Inr (mood, confidence)
          \<longrightarrow> mood \<in> {''happy'', ''tired'', ''playful'', ''anxious''})"
proof (intro conjI allI impI)
  show "mood_phrases = [''a happy pet'', ''a tired pet'', ''a playful pet'', ''a anxious pet'']"
    by (rule mood_phrases_eq)
next
  fix other
  assume "other [''a happy pet'', ''a tired pet'', ''a playful pet'', ''a anxious pet''] img
            = clip_logits [''a happy pet'', ''a tired pet'', ''a playful pet'', ''a anxious pet''] img"
  then have "other mood_phrases img = clip_logits mood_phrases img"
    by (simp only: mood_phrases_eq)
  then show "classify_mood other img = classify_mood clip_logits img"
    by (simp add: classify_mood_def)
next
  fix logits rest
  assume "clip_logits mood_phrases img = Inr (logits # rest) \<and> length logits = 4"
  then have given: "clip_logits mood_phrases img = Inr (logits # rest)" "length logits = 4"
    by simp_all
  have "\<exists>k<4. classify_mood clip_logits img = Inr (moods ! k, softmax logits ! k)
           \<and> (\<forall>j<4. softmax logits ! j \<le> softmax logits ! k)
           \<and> (\<forall>j<k. softmax logits ! j < softmax logits ! k)"
    using classify_mood_first_max [of clip_logits img logits rest, OF given] .
  then show "\<exists>k<4. classify_mood clip_logits img = Inr (moods ! k, softmax logits ! k)
                       \<and> (\<forall>j<4. softmax logits ! j \<le> softmax logits ! k)"
    by blast
next
  fix mood confidence
  assume "classify_mood clip_logits img = Inr (mood, confidence)"
  then have "mood \<in> set moods"
    by (rule classify_mood_member)
  then show "mood \<in> {''happy'', ''tired'', ''playful'', ''anxious''}"
    by (simp add: moods_def)
qed

theorem classify_mood_argmax_witness:
  "scenario_classifier mood_phrases (ImageOpen ''crop.png'') = Inr [[0, ln 6, ln 2, 0]]
   \<and> length [0, ln 6, ln 2, 0 :: real] = 4
   \<and> softmax [0, ln 6, ln 2, 0] = [1/10, 6/10, 2/10, 1/10]
   \<and> classify_mood scenario_classifier (ImageOpen ''crop.png'') = Inr (''tired'', 6/10)
   \<and> ''tired'' \<in> {''happy'', ''tired'', ''playful'', ''anxious''}"
proof -
  have a: "scenario_classifier mood_phrases (ImageOpen ''crop.png'') = Inr [[0, ln 6, ln 2, 0]]"
    by (simp add: scenario_classifier_def)
  have b: "classify_mood scenario_classifier (ImageOpen ''crop.png'') = Inr (''tired'', 6/10)"
    by (simp add: classify_mood_def scenario_classifier_def softmax_scenario argmax_def moods_def)
  from classify_mood_argmax [of "ImageOpen ''crop.png''" scenario_classifier] b
  have "''tired'' \<in> {''happy'', ''tired'', ''playful'', ''anxious''}"
    by blast
  with a b show ?thesis by (simp add: softmax_scenario)
qed

text \<open>
  C6. In every invocation of \<open>classify_mood\<close>, the distribution over the four candidate
  phrases is the softmax of the classifier's logits: it has four entries, each in
  \<open>[0, 1]\<close>, and they sum to 1. The confidence returned, whenever one is, lies in
  \<open>[0, 1]\<close>. (The sum is exact here because the embedding computes in the reals; the
  rounding of float arithmetic is not modelled.)
\<close>

theorem classify_mood_distribution:
  "(\<forall>logits rest. clip_logits mood_phrases img = Inr (logits # rest) \<and> length logits = 4
       \<longrightarrow> length (softmax logits) = 4
           \<and> sum_list (softmax logits) = 1
           \<and> (\<forall>p \<in> set (softmax logits). 0 \<le> p \<and> p \<le> 1)
           \<and> (\<exists>mood confidence. classify_mood clip_logits img = Inr (mood, confidence)
                 \<and> confidence \<in> set (softmax logits)))
   \<and> (\<forall>mood confidence. classify_mood clip_logits img = Inr (mood, confidence)
       \<longrightarrow> 0 \<le> confidence \<and> confidence \<le> 1)"
proof (intro conjI allI impI)
  fix logits rest
  assume "clip_logits mood_phrases img = Inr (logits # rest) \<and> length logits = 4"
  then have given: "clip_logits mood_phrases img = Inr (logits # rest)" "length logits = 4"
    by simp_all
  from given(2) show "length (softmax logits) = 4"
    by (simp add: softmax_length)
  from given(2) have "logits \<noteq> []" by auto
  then show "sum_list (softmax logits) = 1"
    by (rule softmax_sum)
  show "\<forall>p \<in> set (softmax logits). 0 \<le> p \<and> p \<le> 1"
    using softmax_bounds [of _ logits] by fastforce
  obtain k where k: "k < 4" "classify_mood clip_logits img = Inr (moods ! k, softmax logits ! k)"
    using classify_mood_first_max [of clip_logits img logits rest, OF given] by blast
  from k(1) given(2) have "softmax logits ! k \<in> set (softmax logits)"
    by (simp add: softmax_length)
  with k(2) show "\<exists>mood confidence. classify_mood clip_logits img = Inr (mood, confidence)
                 \<and> confidence \<in> set (softmax logits)"
    by blast
next
  fix mood confidence
  assume ret: "classify_mood clip_logits img = Inr (mood, confidence)"
  then obtain logits rest where "confidence \<in> set (softmax logits)"
    using classify_mood_confidence [of clip_logits img mood confidence] by blast
  then have b: "0 < confidence \<and> confidence \<le> 1"
    by (rule softmax_bounds)
  from b show "0 \<le> confidence" by simp
  from b show "confidence \<le> 1" by simp
qed

theorem classify_mood_distribution_witness:
  "scenario_classifier mood_phrases (ImageOpen ''crop.png'') = Inr [[0, ln 6, ln 2, 0]]
   \<and> length [0, ln 6, ln 2, 0 :: real] = 4
   \<and> sum_list (softmax [0, ln 6, ln 2, 0]) = 1
   \<and> classify_mood scenario_classifier (ImageOpen ''crop.png'') = Inr (''tired'', 6/10)
   \<and> (0::real) \<le> 6/10 \<and> (6/10::real) \<le> 1"
proof -
  have a: "scenario_classifier mood_phrases (ImageOpen ''crop.png'') = Inr ([0, ln 6, ln 2, 0] # [])"
    by (simp add: scenario_classifier_def)
  have b: "classify_mood scenario_classifier (ImageOpen ''crop.png'') = Inr (''tired'', 6/10)"
    by (simp add: classify_mood_def scenario_classifier_def softmax_scenario argmax_def moods_def)
  have c: "length [0, ln 6, ln 2, 0 :: real] = 4"
    by simp
  note d = classify_mood_distribution [of scenario_classifier "ImageOpen ''crop.png''"]
  from d a c have "sum_list (softmax [0, ln 6, ln 2, 0]) = 1"
    by blast
  moreover from d b have "(0::real) \<le> 6/10 \<and> (6/10::real) \<le> 1"
    by blast
  ultimately show ?thesis
    using a b c by simp
qed

text \<open>
  C7. When several of the four probabilities equal the maximum, \<open>classify_mood\<close> returns
  the mood of smallest index among them, in the order happy, tired, playful, anxious: if
  entry \<open>i\<close> is a maximum and no earlier entry equals it, the result is mood \<open>i\<close> with
  probability \<open>probs ! i\<close>, whatever later entries tie with it.
\<close>

theorem classify_mood_first_max_wins:
  assumes "clip_logits mood_phrases img = Inr (logits # rest)" and "length logits = 4"
    and "probs = softmax logits"
    and "i < 4"
    and "\<forall>j<4. probs ! j \<le> probs ! i"
    and "\<forall>j<i. probs ! j \<noteq> probs ! i"
  shows "classify_mood clip_logits img = Inr (moods ! i, probs ! i)"
proof -
  obtain k where k: "k < 4" "classify_mood clip_logits img = Inr (moods ! k, probs ! k)"
      "\<forall>j<4. probs ! j \<le> probs ! k" "\<forall>j<k. probs ! j < probs ! k"
    using classify_mood_first_max [of clip_logits img logits rest, OF assms(1,2)] assms(3) by blast
  have len: "length probs = 4"
    using assms(2,3) by (simp add: softmax_length)
  have strict: "\<forall>j<i. probs ! j < probs ! i"
  proof (intro allI impI)
    fix j assume "j < i"
    with assms(4) have "j < 4" by simp
    with assms(5) have "probs ! j \<le> probs ! i" by blast
    moreover from \<open>j < i\<close> assms(6) have "probs ! j \<noteq> probs ! i" by blast
    ultimately show "probs ! j < probs ! i" by simp
  qed
  have "k = i"
  proof (rule first_max_unique)
    show "k < length probs" using k(1) len by simp
    show "i < length probs" using assms(4) len by simp
    show "\<forall>j<length probs. probs ! j \<le> probs ! k" using k(3) len by simp
    show "\<forall>j<k. probs ! j < probs ! k" by (rule k(4))
    show "\<forall>j<length probs. probs ! j \<le> probs ! i" using assms(5) len by simp
    show "\<forall>j<i. probs ! j < probs ! i" by (rule strict)
  qed
  with k(2) show ?thesis by simp
qed

theorem classify_mood_first_max_wins_witness:
  "tie_classifier mood_phrases (ImageOpen ''crop.png'') = Inr [[0, ln 3, ln 3, 0]]
   \<and> softmax [0, ln 3, ln 3, 0] = [1/8, 3/8, 3/8, 1/8]
   \<and> [1/8, 3/8, 3/8, 1/8 :: real] ! 1 = [1/8, 3/8, 3/8, 1/8] ! 2
   \<and> classify_mood tie_classifier (ImageOpen ''crop.png'') = Inr (''tired'', 3/8)"
proof -
  have a: "tie_classifier mood_phrases (ImageOpen ''crop.png'') = Inr ([0, ln 3, ln 3, 0] # [])"
    by (simp add: tie_classifier_def)
  have b: "length [0, ln 3, ln 3, 0 :: real] = 4"
    by simp
  have p: "[1/8, 3/8, 3/8, 1/8 :: real] = softmax [0, ln 3, ln 3, 0]"
    by (simp add: softmax_tie)
  have c: "(1::nat) < 4"
    by simp
  have d: "\<forall>j<4. [1/8, 3/8, 3/8, 1/8 :: real] ! j \<le> [1/8, 3/8, 3/8, 1/8] ! 1"
    by (simp add: less_Suc_eq numeral_eq_Suc nth_Cons')
  have e: "\<forall>j<1. [1/8, 3/8, 3/8, 1/8 :: real] ! j \<noteq> [1/8, 3/8, 3/8, 1/8] ! 1"
    by simp
  have "classify_mood tie_classifier (ImageOpen ''crop.png'') =
          Inr (moods ! 1, [1/8, 3/8, 3/8, 1/8] ! 1)"
    using classify_mood_first_max_wins [of tie_classifier "ImageOpen ''crop.png''"
        "[0, ln 3, ln 3, 0]" "[]" "[1/8, 3/8, 3/8, 1/8]" 1, OF a b p c d e] .
  then show ?thesis
    using a by (simp add: moods_def softmax_tie)
qed

subsection \<open>The scenario of the specification\<close>

lemma show_annotated_ok:
  assumes "imshow cv ''Pet Mood Detection'' annotated = None"
    and "waitKey cv 0 = Inr key"
    and "destroyAllWindows cv = None"
  shows "show_annotated cv annotated =
     ([ImShow ''Pet Mood Detection'', WaitKey 0, DestroyAllWindows], None)"
  using assms by (simp add: show_annotated_def)

lemma run_demo_found:
  assumes "detect_and_crop yolo_model lib path = Inr (Some pt, Some cr, Some box)"
    and "pt \<noteq> []"
    and "classify_mood clip_logits cr = Inr (mood, confidence)"
  shows "run_demo yolo_model lib clip_logits fmt_pct cv path =
     (case draw_detection_with_mood cv fmt_pct path box pt mood confidence of
        Inl e \<Rightarrow>
          ([ClassifyMoodCall cr,
            Print (''Pet detected: '' @ pt),
            Print (''Mood: '' @ mood @ '' ('' @ fmt_pct confidence @ ''% confidence)''),
            Print (''Recommendation: '' @ get_recommendation pt mood),
            DrawDetectionCall path box pt mood confidence], Some e)
      | Inr annotated_img \<Rightarrow>
          (case show_annotated cv annotated_img of
             (shown, err) \<Rightarrow>
               ([ClassifyMoodCall cr,
                 Print (''Pet detected: '' @ pt),
                 Print (''Mood: '' @ mood @ '' ('' @ fmt_pct confidence @ ''% confidence)''),
                 Print (''Recommendation: '' @ get_recommendation pt mood),
                 DrawDetectionCall path box pt mood confidence] @ shown, err)))"
  using assms
  by (simp add: run_demo_def truthy_def Let_def split: sum.splits)

text \<open>
  C9. If the detector returns the single detection labelled "dog" at box
  \<open>(10, 10, 100, 100)\<close> with confidence about 0.9, the crop at that box succeeds, and the
  classifier yields a distribution within a tolerance \<open>tol < 0.2\<close> of
  \<open>[0.1, 0.6, 0.2, 0.1]\<close> over happy, tired, playful, anxious, then the run finds the dog
  at that box, classifies it as "tired" with the distribution's second entry as confidence
  (within \<open>tol\<close> of 0.6), and looks up the recommendation "Let your dog rest and provide
  fresh water" followed by the droplet emoji. It prints these three results and calls
  \<open>draw_detection_with_mood\<close> with them; when the drawing and the window calls succeed,
  the run ends normally after them.
\<close>

theorem scenario_dog_tired:
  fixes cropped :: 'a
  assumes "yolo_model path = Inr [r]"
    and "boxes_xyxy r = [(10, 10, 100, 100)]"
    and "boxes_cls r = [cls]"
    and "boxes_conf r = [conf]"
    and "\<bar>conf - 9/10\<bar> \<le> tol"
    and "names r (py_int cls) = Some ''dog''"
    and "open_and_crop lib path (10, 10, 100, 100) = Inr cropped"
    and "clip_logits mood_phrases cropped = Inr [logits]"
    and "softmax logits = [p0, p1, p2, p3]"
    and "\<bar>p0 - 1/10\<bar> \<le> tol" and "\<bar>p1 - 6/10\<bar> \<le> tol"
    and "\<bar>p2 - 2/10\<bar> \<le> tol" and "\<bar>p3 - 1/10\<bar> \<le> tol"
    and "tol < 1/5"
  shows "detect_and_crop yolo_model lib path =
           Inr (Some ''dog'', Some cropped, Some (10, 10, 100, 100))
         \<and> classify_mood clip_logits cropped = Inr (''tired'', p1)
         \<and> \<bar>p1 - 6/10\<bar> \<le> tol
         \<and> get_recommendation ''dog'' ''tired'' =
             ''Let your dog rest and provide fresh water '' @ [CHR 0xF0, CHR 0x9F, CHR 0x92, CHR 0xA7]
         \<and> (\<exists>shown err. run_demo yolo_model lib clip_logits fmt_pct cv path =
               ([ClassifyMoodCall cropped,
                 Print ''Pet detected: dog'',
                 Print (''Mood: tired ('' @ fmt_pct p1 @ ''% confidence)''),
                 Print (''Recommendation: Let your dog rest and provide fresh water ''
                          @ [CHR 0xF0, CHR 0x9F, CHR 0x92, CHR 0xA7]),
                 DrawDetectionCall path (10, 10, 100, 100) ''dog'' ''tired'' p1] @ shown, err))
         \<and> (\<forall>annotated key.
               draw_detection_with_mood cv fmt_pct path (10, 10, 100, 100) ''dog'' ''tired'' p1 = Inr annotated
               \<and> imshow cv ''Pet Mood Detection'' annotated = None
               \<and> waitKey cv 0 = Inr key
               \<and> destroyAllWindows cv = None
               \<longrightarrow> run_demo yolo_model lib clip_logits fmt_pct cv path =
                     ([ClassifyMoodCall cropped,
                       Print ''Pet detected: dog'',
                       Print (''Mood: tired ('' @ fmt_pct p1 @ ''% confidence)''),
                       Print (''Recommendation: Let your dog rest and provide fresh water ''
                                @ [CHR 0xF0, CHR 0x9F, CHR 0x92, CHR 0xA7]),
                       DrawDetectionCall path (10, 10, 100, 100) ''dog'' ''tired'' p1,
                       ImShow ''Pet Mood Detection'',
                       WaitKey 0,
                       DestroyAllWindows], None))"
proof -
  have ints: "py_int 10 = 10" "py_int 100 = 100"
    by (simp_all add: py_int_def)
  have det: "detect_and_crop yolo_model lib path =
           Inr (Some ''dog'', Some cropped, Some (10, 10, 100, 100))"
    using assms(1,2,3,6,7) by (simp add: detect_and_crop_def ints)
  have order: "p0 < p1" "\<not> p1 < p2" "\<not> p1 < p3"
    using assms(10-14) by linarith+
  have cls: "classify_mood clip_logits cropped = Inr (''tired'', p1)"
    using assms(8,9) order by (simp add: classify_mood_def argmax_def moods_def)
  have rec: "get_recommendation ''dog'' ''tired'' =
             ''Let your dog rest and provide fresh water '' @ [CHR 0xF0, CHR 0x9F, CHR 0x92, CHR 0xA7]"
    by (simp add: get_recommendation_def rules_def)
  have dog: "''dog'' \<noteq> []"
    by simp
  note run = run_demo_found [of yolo_model lib path "''dog''" cropped "(10, 10, 100, 100)"
      clip_logits "''tired''" p1 fmt_pct cv, OF det dog cls]
  have started: "\<exists>shown err. run_demo yolo_model lib clip_logits fmt_pct cv path =
               ([ClassifyMoodCall cropped,
                 Print ''Pet detected: dog'',
                 Print (''Mood: tired ('' @ fmt_pct p1 @ ''% confidence)''),
                 Print (''Recommendation: Let your dog rest and provide fresh water ''
                          @ [CHR 0xF0, CHR 0x9F, CHR 0x92, CHR 0xA7]),
                 DrawDetectionCall path (10, 10, 100, 100) ''dog'' ''tired'' p1] @ shown, err)"
  proof (cases "draw_detection_with_mood cv fmt_pct path (10, 10, 100, 100) ''dog'' ''tired'' p1")
    case (Inl e)
    with run rec have "run_demo yolo_model lib clip_logits fmt_pct cv path =
               ([ClassifyMoodCall cropped,
                 Print ''Pet detected: dog'',
                 Print (''Mood: tired ('' @ fmt_pct p1 @ ''% confidence)''),
                 Print (''Recommendation: Let your dog rest and provide fresh water ''
                          @ [CHR 0xF0, CHR 0x9F, CHR 0x92, CHR 0xA7]),
                 DrawDetectionCall path (10, 10, 100, 100) ''dog'' ''tired'' p1] @ [], Some e)"
      by simp
    then show ?thesis by blast
  next
    case (Inr annotated)
    obtain shown err where sa: "show_annotated cv annotated = (shown :: 'a event list, err)"
      by (cases "show_annotated cv annotated :: 'a event list \<times> py_error option") blast
    with Inr run rec have "run_demo yolo_model lib clip_logits fmt_pct cv path =
               ([ClassifyMoodCall cropped,
                 Print ''Pet detected: dog'',
                 Print (''Mood: tired ('' @ fmt_pct p1 @ ''% confidence)''),
                 Print (''Recommendation: Let your dog rest and provide fresh water ''
                          @ [CHR 0xF0, CHR 0x9F, CHR 0x92, CHR 0xA7]),
                 DrawDetectionCall path (10, 10, 100, 100) ''dog'' ''tired'' p1]
                @ shown, err)"
      by simp
    then show ?thesis by blast
  qed
  have finished: "run_demo yolo_model lib clip_logits fmt_pct cv path =
                     ([ClassifyMoodCall cropped,
                       Print ''Pet detected: dog'',
                       Print (''Mood: tired ('' @ fmt_pct p1 @ ''% confidence)''),
                       Print (''Recommendation: Let your dog rest and provide fresh water ''
                                @ [CHR 0xF0, CHR 0x9F, CHR 0x92, CHR 0xA7]),
                       DrawDetectionCall path (10, 10, 100, 100) ''dog'' ''tired'' p1,
                       ImShow ''Pet Mood Detection'',
                       WaitKey 0,
                       DestroyAllWindows], None)"
    if "draw_detection_with_mood cv fmt_pct path (10, 10, 100, 100) ''dog'' ''tired'' p1 = Inr annotated
               \<and> imshow cv ''Pet Mood Detection'' annotated = None
               \<and> waitKey cv 0 = Inr key
               \<and> destroyAllWindows cv = None" for annotated key
  proof -
    from that have drawn: "draw_detection_with_mood cv fmt_pct path (10, 10, 100, 100) ''dog'' ''tired'' p1
        = Inr annotated"
      by simp
    from that have "show_annotated cv annotated =
        ([ImShow ''Pet Mood Detection'', WaitKey 0, DestroyAllWindows :: 'a event], None)"
      by (intro show_annotated_ok) simp_all
    with drawn run rec show ?thesis by simp
  qed
  from det cls assms(11) rec started finished show ?thesis
    by blast
qed

theorem scenario_dog_tired_witness:
  "run_demo scenario_detector symbolic_pil scenario_classifier scenario_fmt symbolic_cv image_path =
     ([ClassifyMoodCall (Crop (ImageOpen image_path) (10, 10, 100, 100)),
       Print ''Pet detected: dog'',
       Print ''Mood: tired (60.0% confidence)'',
       Print (''Recommendation: Let your dog rest and provide fresh water ''
                @ [CHR 0xF0, CHR 0x9F, CHR 0x92, CHR 0xA7]),
       DrawDetectionCall image_path (10, 10, 100, 100) ''dog'' ''tired'' (6/10),
       ImShow ''Pet Mood Detection'',
       WaitKey 0,
       DestroyAllWindows], None)
   \<and> classify_mood scenario_classifier (Crop (ImageOpen image_path) (10, 10, 100, 100)) = Inr (''tired'', 6/10)
   \<and> \<bar>7549747/8388608 - 9/10 :: real\<bar> \<le> 1/100"
proof -
  have h1: "scenario_detector image_path = Inr [scenario_dog]"
    by (simp add: scenario_detector_def)
  have h2: "boxes_xyxy scenario_dog = [(10, 10, 100, 100)]"
    by (simp add: scenario_dog_def)
  have h3: "boxes_cls scenario_dog = [16]"
    by (simp add: scenario_dog_def)
  have h4: "boxes_conf scenario_dog = [7549747/8388608]"
    by (simp add: scenario_dog_def)
  have h5: "\<bar>7549747/8388608 - 9/10 :: real\<bar> \<le> 1/100"
    by simp
  have h6: "names scenario_dog (py_int 16) = Some ''dog''"
    by (simp add: scenario_dog_def coco_names_def py_int_def)
  have h7: "open_and_crop symbolic_pil image_path (10, 10, 100, 100) =
      Inr (Crop (ImageOpen image_path) (10, 10, 100, 100))"
    by (rule symbolic_open_and_crop)
  have h8: "scenario_classifier mood_phrases (Crop (ImageOpen image_path) (10, 10, 100, 100)) =
      Inr [[0, ln 6, ln 2, 0]]"
    by (simp add: scenario_classifier_def)
  have h9: "softmax [0, ln 6, ln 2, 0] = [1/10, 6/10, 2/10, 1/10]"
    by (rule softmax_scenario)
  have t: "\<bar>1/10 - 1/10 :: real\<bar> \<le> 1/100" "\<bar>6/10 - 6/10 :: real\<bar> \<le> 1/100"
      "\<bar>2/10 - 2/10 :: real\<bar> \<le> 1/100" "(1/100 :: real) < 1/5"
    by simp_all
  note res = scenario_dog_tired [of scenario_detector image_path scenario_dog 16 "7549747/8388608"
      "1/100" symbolic_pil "Crop (ImageOpen image_path) (10, 10, 100, 100)" scenario_classifier
      "[0, ln 6, ln 2, 0]" "1/10" "6/10" "2/10" "1/10" scenario_fmt symbolic_cv,
      OF h1 h2 h3 h4 h5 h6 h7 h8 h9 t(1) t(2) t(3) t(1) t(4)]
  have "\<exists>annotated. draw_detection_with_mood symbolic_cv scenario_fmt image_path (10, 10, 100, 100)
      ''dog'' ''tired'' (6/10) = Inr annotated"
    by (simp add: draw_detection_with_mood_def symbolic_cv_def)
  then obtain annotated where drawn:
    "draw_detection_with_mood symbolic_cv scenario_fmt image_path (10, 10, 100, 100)
      ''dog'' ''tired'' (6/10) = Inr annotated"
    by blast
  have calls: "imshow symbolic_cv ''Pet Mood Detection'' annotated = None"
      "waitKey symbolic_cv 0 = Inr 13" "destroyAllWindows symbolic_cv = None"
    by (simp_all add: symbolic_cv_def)
  from res drawn calls
  have "run_demo scenario_detector symbolic_pil scenario_classifier scenario_fmt symbolic_cv image_path =
     ([ClassifyMoodCall (Crop (ImageOpen image_path) (10, 10, 100, 100)),
       Print ''Pet detected: dog'',
       Print (''Mood: tired ('' @ scenario_fmt (6/10) @ ''% confidence)''),
       Print (''Recommendation: Let your dog rest and provide fresh water ''
                @ [CHR 0xF0, CHR 0x9F, CHR 0x92, CHR 0xA7]),
       DrawDetectionCall image_path (10, 10, 100, 100) ''dog'' ''tired'' (6/10),
       ImShow ''Pet Mood Detection'',
       WaitKey 0,
       DestroyAllWindows], None)"
    by blast
  moreover from res
  have "classify_mood scenario_classifier (Crop (ImageOpen image_path) (10, 10, 100, 100)) = Inr (''tired'', 6/10)"
    by blast
  ultimately show ?thesis
    using h5 by (simp add: scenario_fmt_def)
qed

end
